theory Spec2Isabelle
  imports Main "HOL-Library.Word" "HOL-Library.AList"
begin

section \<open>Bytes, lengths and the wire format\<close>

text \<open>
  A Go \<^verbatim>\<open>string\<close> and a \<^verbatim>\<open>[]byte\<close> are both sequences of bytes, and the conversions
  \<^verbatim>\<open>[]byte(msg)\<close> and \<^verbatim>\<open>string(msgBuf)\<close> keep the bytes as they are. A \<^typ>\<open>char\<close> is
  one byte, so both are \<^typ>\<open>string\<close> here and \<^const>\<open>length\<close> is Go's \<^verbatim>\<open>len\<close>.
  The message length is a \<^verbatim>\<open>uint32\<close>: the conversion \<^verbatim>\<open>uint32(len(msgBytes))\<close> keeps the
  low 32 bits, which is what \<^const>\<open>of_nat\<close> into a 32-bit word does.
\<close>

type_synonym uint32 = "32 word"

definition maxMessageSize :: uint32 where
  "maxMessageSize = 1024 * 4"

text \<open>\<^verbatim>\<open>binary.Write(buf, binary.BigEndian, msgLen)\<close>: four bytes, most significant first.\<close>

definition putUint32 :: "uint32 \<Rightarrow> string" where
  "putUint32 v = [char_of (unat v div 16777216), char_of (unat v div 65536),
                  char_of (unat v div 256), char_of (unat v)]"

text \<open>
  \<^verbatim>\<open>binary.Read(bytes.NewReader(lenBuf), binary.BigEndian, &msgLen)\<close>. The readers only call
  it on the four bytes that \<^verbatim>\<open>io.ReadFull\<close> has filled, where it cannot fail.
\<close>

fun getUint32 :: "string \<Rightarrow> uint32" where
  "getUint32 [b0, b1, b2, b3] =
     of_nat (((of_char b0 * 256 + of_char b1) * 256 + of_char b2) * 256 + of_char b3)"
| "getUint32 _ = 0"

text \<open>
  \<^verbatim>\<open>io.ReadFull(conn, buf)\<close> with \<^verbatim>\<open>len(buf) = n\<close>, on a stream whose remaining bytes are
  \<open>inp\<close> and which ends after them: the first \<open>n\<close> bytes and the rest of the stream, or
  an error (\<^verbatim>\<open>io.EOF\<close>, \<^verbatim>\<open>io.ErrUnexpectedEOF\<close>) when fewer than \<open>n\<close> bytes are left.
\<close>

definition ReadFull :: "nat \<Rightarrow> string \<Rightarrow> (string \<times> string) option" where
  "ReadFull n inp = (if n \<le> length inp then Some (take n inp, drop n inp) else None)"

subsection \<open>\<^verbatim>\<open>strings.TrimSpace\<close>\<close>

text \<open>
  The standard library trims, at both ends, every rune for which \<^verbatim>\<open>unicode.IsSpace\<close>
  holds. The list below holds the UTF-8 encodings of exactly these code points: the six
  ASCII ones, U+0085, U+00A0, U+1680, U+2000 to U+200A, U+2028, U+2029, U+202F, U+205F
  and U+3000. The decoder accepts only the shortest encoding of a code point, and an
  invalid byte decodes to U+FFFD, which is no space; so a white-space rune stands at the
  front (at the end) of a string exactly when one of these encodings is a prefix (a
  suffix) of it.
\<close>

definition spaceRunes :: "string list" where
  "spaceRunes =
    [[CHR 0x09], [CHR 0x0A], [CHR 0x0B], [CHR 0x0C], [CHR 0x0D], [CHR 0x20],
     [CHR 0xC2, CHR 0x85], [CHR 0xC2, CHR 0xA0],
     [CHR 0xE1, CHR 0x9A, CHR 0x80],
     [CHR 0xE2, CHR 0x80, CHR 0x80], [CHR 0xE2, CHR 0x80, CHR 0x81],
     [CHR 0xE2, CHR 0x80, CHR 0x82], [CHR 0xE2, CHR 0x80, CHR 0x83],
     [CHR 0xE2, CHR 0x80, CHR 0x84], [CHR 0xE2, CHR 0x80, CHR 0x85],
     [CHR 0xE2, CHR 0x80, CHR 0x86], [CHR 0xE2, CHR 0x80, CHR 0x87],
     [CHR 0xE2, CHR 0x80, CHR 0x88], [CHR 0xE2, CHR 0x80, CHR 0x89],
     [CHR 0xE2, CHR 0x80, CHR 0x8A],
     [CHR 0xE2, CHR 0x80, CHR 0xA8], [CHR 0xE2, CHR 0x80, CHR 0xA9],
     [CHR 0xE2, CHR 0x80, CHR 0xAF],
     [CHR 0xE2, CHR 0x81, CHR 0x9F],
     [CHR 0xE3, CHR 0x80, CHR 0x80]]"

definition startsWith :: "string \<Rightarrow> string \<Rightarrow> bool" where
  "startsWith s e = (e \<noteq> [] \<and> take (length e) s = e)"

function trimFront :: "string list \<Rightarrow> string \<Rightarrow> string" where
  "trimFront tbl s =
     (case find (startsWith s) tbl of
        None \<Rightarrow> s
      | Some e \<Rightarrow> trimFront tbl (drop (length e) s))"
  by pat_completeness auto
termination
proof (relation "measure (\<lambda>(tbl, s). length s)")
  show "wf (measure (\<lambda>(tbl, s). length s))" by simp
next
  fix tbl :: "string list" and s e :: string
  assume "find (startsWith s) tbl = Some e"
  then have "startsWith s e" by (auto simp: find_Some_iff)
  then have ne: "e \<noteq> []" and tk: "take (length e) s = e" by (simp_all add: startsWith_def)
  have "length (take (length e) s) = length e" by (simp only: tk)
  then have "length e \<le> length s" by simp
  moreover have "0 < length e" using ne by simp
  ultimately show "((tbl, drop (length e) s), (tbl, s)) \<in> measure (\<lambda>(tbl, s). length s)"
    by (cases e) auto
qed

definition TrimLeft :: "string \<Rightarrow> string" where
  "TrimLeft s = trimFront spaceRunes s"

definition TrimRight :: "string \<Rightarrow> string" where
  "TrimRight s = rev (trimFront (map rev spaceRunes) (rev s))"

definition TrimSpace :: "string \<Rightarrow> string" where
  "TrimSpace s = TrimRight (TrimLeft s)"

section \<open>Connections, clients and the server\<close>

type_synonym addr = nat

text \<open>
  The value \<^verbatim>\<open>conn.RemoteAddr()\<close> of an accepted connection is the key of the member map
  and identifies the connection; the transport behind it is looked up under that address.
\<close>

record conn =
  RemoteAddr :: addr

text \<open>
  What the server can observe of a peer's connection when it writes: whether
  \<^verbatim>\<open>conn.Write\<close> returns an error, every buffer that was handed to \<^verbatim>\<open>conn.Write\<close>, and
  the buffers that were written without error.
\<close>

record transport =
  broken :: bool
  written :: "string list"
  delivered :: "string list"

definition Write :: "transport \<Rightarrow> string \<Rightarrow> transport \<times> bool" where
  "Write t buf =
     (t\<lparr>written := written t @ [buf],
        delivered := (if broken t then delivered t else delivered t @ [buf])\<rparr>,
      broken t)"

record client =
  conn :: conn
  name :: string

text \<open>
  The server: the member map in iteration order (a Go map has no duplicate keys and
  ranges over its entries in an unspecified order, so every list of entries with distinct
  keys is a possible iteration), the values sent on the two channels and not yet
  received by \<^verbatim>\<open>run\<close>, and the transports of all connections.
\<close>

record server =
  members :: "(addr \<times> client) list"
  messages :: "(client \<times> string) list"
  disconnect :: "addr list"
  net :: "addr \<Rightarrow> transport"

subsection \<open>Sending: \<^verbatim>\<open>client.msg\<close> and \<^verbatim>\<open>encodeAndSend\<close>\<close>

text \<open>
  Both functions start with the same statements (length, the two checks, the buffer of
  header and payload); \<open>encode\<close> is that common part, up to the call of
  \<^verbatim>\<open>conn.Write\<close>. Writing to a \<^verbatim>\<open>bytes.Buffer\<close> does not fail.
\<close>

datatype encoded = Skipped | TooLarge | Frame string

definition encode :: "string \<Rightarrow> encoded" where
  "encode msg =
     (let msgBytes = msg;
          msgLen = (of_nat (length msgBytes) :: uint32)
      in if msgLen = 0 then Skipped
         else if msgLen > maxMessageSize then TooLarge
         else Frame (putUint32 msgLen @ msgBytes))"

definition client_msg :: "client \<Rightarrow> string \<Rightarrow> server \<Rightarrow> server" where
  "client_msg c msg s =
     (case encode msg of
        Skipped \<Rightarrow> s
      | TooLarge \<Rightarrow> s
      | Frame buf \<Rightarrow>
          (let a = RemoteAddr (conn c);
               (t, err) = Write (net s a) buf
           in s\<lparr>net := (net s)(a := t)\<rparr>))"

datatype send_error = MessageTooLarge | WriteFailed

definition encodeAndSend :: "transport \<Rightarrow> string \<Rightarrow> transport \<times> send_error option" where
  "encodeAndSend t msg =
     (case encode msg of
        Skipped \<Rightarrow> (t, None)
      | TooLarge \<Rightarrow> (t, Some MessageTooLarge)
      | Frame buf \<Rightarrow>
          (let (t', err) = Write t buf
           in (t', if err then Some WriteFailed else None)))"

subsection \<open>Receiving: \<^verbatim>\<open>client.readInput\<close> and \<^verbatim>\<open>readFromServer\<close>\<close>

datatype exit = LengthReadError | LengthExceedsLimit | BodyReadError

text \<open>
  One pass through steps 1 to 4 of the loop body, the same in both readers: read the
  header, decode it, check the length, read the body. The result says how the pass ends
  and which bytes of the stream are still unread.
\<close>

datatype frame_result =
    Closed exit string
  | ZeroLength string
  | Body string string

definition readFrame :: "string \<Rightarrow> frame_result" where
  "readFrame inp =
     (case ReadFull 4 inp of
        None \<Rightarrow> Closed LengthReadError []
      | Some (lenBuf, inp1) \<Rightarrow>
          (let msgLen = getUint32 lenBuf
           in if msgLen = 0 then ZeroLength inp1
              else if msgLen > maxMessageSize then Closed LengthExceedsLimit inp1
              else (case ReadFull (unat msgLen) inp1 of
                      None \<Rightarrow> Closed BodyReadError []
                    | Some (msgBuf, inp2) \<Rightarrow> Body msgBuf inp2)))"

text \<open>
  What \<^verbatim>\<open>readInput\<close> does to the outside, in the order in which it does it: a message
  sent on \<^verbatim>\<open>c.serverMessage\<close>, the remote address sent on \<^verbatim>\<open>c.disconnect\<close>, and
  \<^verbatim>\<open>c.conn.Close()\<close> on the connection with that remote address.
\<close>

datatype event = Message client string | Disconnect addr | Close addr

text \<open>
  The loop of \<^verbatim>\<open>readInput\<close>: the messages sent on \<^verbatim>\<open>c.serverMessage\<close>, in order, why the
  loop was left, and the unread rest of the stream.
\<close>

function readLoop :: "client \<Rightarrow> string \<Rightarrow> event list \<times> exit \<times> string" where
  "readLoop c inp =
     (case readFrame inp of
        Closed e rest \<Rightarrow> ([], e, rest)
      | ZeroLength rest \<Rightarrow> readLoop c rest
      | Body msgBuf rest \<Rightarrow>
          (let msgString = TrimSpace msgBuf;
               (evs, e, rest') = readLoop c rest
           in (Message c msgString # evs, e, rest')))"
  by pat_completeness auto
termination
proof (relation "measure (\<lambda>(c, inp). length inp)")
  show "wf (measure (\<lambda>(c, inp). length inp))" by simp
next
  fix c :: client and inp rest :: string
  assume "readFrame inp = ZeroLength rest"
  then have "length rest < length inp"
    by (auto simp: readFrame_def ReadFull_def Let_def split: if_splits option.splits)
  then show "((c, rest), (c, inp)) \<in> measure (\<lambda>(c, inp). length inp)" by simp
next
  fix c :: client and inp msgBuf rest msgString :: string
  assume "readFrame inp = Body msgBuf rest"
  then have "length rest < length inp"
    by (auto simp: readFrame_def ReadFull_def Let_def split: if_splits option.splits)
  then show "((c, rest), (c, inp)) \<in> measure (\<lambda>(c, inp). length inp)" by simp
qed

text \<open>
  \<^verbatim>\<open>readInput\<close> returns only through its deferred function, which first sends the remote
  address on the disconnect channel and then closes the connection, whatever made the
  loop end.
\<close>

definition readInput :: "client \<Rightarrow> string \<Rightarrow> event list \<times> exit \<times> string" where
  "readInput c inp =
     (let (evs, e, rest) = readLoop c inp
      in (evs @ [Disconnect (RemoteAddr (conn c)), Close (RemoteAddr (conn c))], e, rest))"

text \<open>
  The loop of \<^verbatim>\<open>readFromServer\<close> in client.go: the lines it prints. Its deferred function
  only logs: this reader closes nothing, the connection of the client program is closed
  by \<^verbatim>\<open>main\<close> when it exits.
\<close>

function readFromServer :: "string \<Rightarrow> string list \<times> exit \<times> string" where
  "readFromServer inp =
     (case readFrame inp of
        Closed e rest \<Rightarrow> ([], e, rest)
      | ZeroLength rest \<Rightarrow> readFromServer rest
      | Body msgBuf rest \<Rightarrow>
          (let msgString = TrimSpace msgBuf
           in if msgString = [] then readFromServer rest
              else (let (out, e, rest') = readFromServer rest
                    in ((''> '' @ msgString) # out, e, rest'))))"
  by pat_completeness auto
termination
proof (relation "measure length")
  show "wf (measure length)" by simp
next
  fix inp rest :: string
  assume "readFrame inp = ZeroLength rest"
  then have "length rest < length inp"
    by (auto simp: readFrame_def ReadFull_def Let_def split: if_splits option.splits)
  then show "(rest, inp) \<in> measure length" by simp
next
  fix inp msgBuf rest msgString :: string
  assume "readFrame inp = Body msgBuf rest"
  then have "length rest < length inp"
    by (auto simp: readFrame_def ReadFull_def Let_def split: if_splits option.splits)
  then show "(rest, inp) \<in> measure length" by simp
next
  fix inp msgBuf rest msgString :: string
  assume "readFrame inp = Body msgBuf rest"
  then have "length rest < length inp"
    by (auto simp: readFrame_def ReadFull_def Let_def split: if_splits option.splits)
  then show "(rest, inp) \<in> measure length" by simp
qed

subsection \<open>The server: \<^verbatim>\<open>broadcast\<close>, \<^verbatim>\<open>msg\<close>, \<^verbatim>\<open>run\<close>, \<^verbatim>\<open>newClient\<close> and the accept loop\<close>

text \<open>The \<^verbatim>\<open>range\<close> loop of \<^verbatim>\<open>broadcast\<close> over the entries of the member map.\<close>

fun broadcast_loop :: "client \<Rightarrow> string \<Rightarrow> (addr \<times> client) list \<Rightarrow> server \<Rightarrow> server" where
  "broadcast_loop sender msg [] s = s"
| "broadcast_loop sender msg ((a, m) # rest) s =
     broadcast_loop sender msg rest
       (if RemoteAddr (conn sender) \<noteq> a then client_msg m msg s else s)"

definition server_broadcast :: "client \<Rightarrow> string \<Rightarrow> server \<Rightarrow> server" where
  "server_broadcast sender msg s = broadcast_loop sender msg (members s) s"

definition server_msg :: "client \<Rightarrow> string \<Rightarrow> server \<Rightarrow> server" where
  "server_msg c msg s = (let chatMsg = name c @ '': '' @ msg in server_broadcast c chatMsg s)"

text \<open>The two cases of the \<^verbatim>\<open>select\<close> in \<^verbatim>\<open>run\<close>, for the value received.\<close>

definition run_message :: "client \<times> string \<Rightarrow> server \<Rightarrow> server" where
  "run_message m s = server_msg (fst m) (snd m) s"

definition run_disconnect :: "addr \<Rightarrow> server \<Rightarrow> server" where
  "run_disconnect a s =
     (case map_of (members s) a of
        Some c \<Rightarrow>
          (let s1 = server_broadcast c (name c @ '' left the room'') s
           in s1\<lparr>members := AList.delete a (members s1)\<rparr>)
      | None \<Rightarrow> s)"

text \<open>
  \<^verbatim>\<open>fmt.Sprintf("user%d", time.Now().UnixNano()%10000)\<close>: Go's remainder takes the sign of
  the dividend, and \<^verbatim>\<open>%d\<close> prints a decimal number with a minus sign when negative.
\<close>

definition rem :: "int \<Rightarrow> int \<Rightarrow> int" where
  "rem a b = sgn a * (\<bar>a\<bar> mod \<bar>b\<bar>)"

function showNat :: "nat \<Rightarrow> string" where
  "showNat n =
     (if n < 10 then [char_of (48 + n)]
      else showNat (n div 10) @ [char_of (48 + n mod 10)])"
  by pat_completeness auto
termination
  by (relation "measure id") auto

definition showInt :: "int \<Rightarrow> string" where
  "showInt i = (if i < 0 then CHR ''-'' # showNat (nat (- i)) else showNat (nat i))"

definition newClient :: "conn \<Rightarrow> int \<Rightarrow> client" where
  "newClient cn now = \<lparr>conn = cn, name = ''user'' @ showInt (rem now 10000)\<rparr>"

text \<open>
  One pass of the accept loop in \<^verbatim>\<open>main\<close>, after \<^verbatim>\<open>ln.Accept()\<close> has returned the
  connection \<open>cn\<close> at clock value \<open>now\<close>. \<^verbatim>\<open>main\<close> has started \<^verbatim>\<open>run\<close> in a goroutine of its
  own (\<^verbatim>\<open>go s.run()\<close>) before; this pass runs in the goroutine of \<^verbatim>\<open>main\<close>.
\<close>

definition main_accept :: "conn \<Rightarrow> int \<Rightarrow> server \<Rightarrow> server" where
  "main_accept cn now s =
     (let c = newClient cn now;
          s1 = s\<lparr>members := AList.update (RemoteAddr cn) c (members s)\<rparr>
      in server_broadcast c (name c @ '' joined the room'') s1)"

definition newServer :: "(addr \<Rightarrow> transport) \<Rightarrow> server" where
  "newServer nt = \<lparr>members = [], messages = [], disconnect = [], net = nt\<rparr>"

subsection \<open>The registry invariant\<close>

text \<open>
  A Go map holds one entry per key, and the only insertion into the member map is
  \<^verbatim>\<open>s.members[conn.RemoteAddr()] = c\<close> in the accept loop, where \<^verbatim>\<open>c.conn\<close> is that
  connection: every key is the remote address of its own client.
\<close>

definition wf_members :: "(addr \<times> client) list \<Rightarrow> bool" where
  "wf_members ms = (distinct (map fst ms) \<and> (\<forall>(a, m) \<in> set ms. RemoteAddr (conn m) = a))"

text \<open>What one call \<^verbatim>\<open>m.msg(msg)\<close> does to the transport of \<^verbatim>\<open>m.conn\<close>.\<close>

definition msg_on :: "string \<Rightarrow> transport \<Rightarrow> transport" where
  "msg_on msg t = (case encode msg of Frame buf \<Rightarrow> fst (Write t buf) | _ \<Rightarrow> t)"

text \<open>
  The handling of a disconnect in the words of the specification (section 4.3): if the
  endpoint is present in the registry, remove it, then broadcast the departure notice
  with the removed peer excluded; if it is absent, do nothing. It is compared with
  \<open>run_disconnect\<close>, which follows the source and broadcasts before it deletes.
\<close>

definition spec_disconnect :: "addr \<Rightarrow> server \<Rightarrow> server" where
  "spec_disconnect a s =
     (case map_of (members s) a of
        Some c \<Rightarrow>
          server_broadcast c (name c @ '' left the room'') (s\<lparr>members := AList.delete a (members s)\<rparr>)
      | None \<Rightarrow> s)"

subsection \<open>A room of three peers\<close>

text \<open>
  Three connected peers with the addresses 1, 2 and 3 and no traffic so far; the
  transport of the second returns an error on every write.
\<close>

definition idle :: transport where
  "idle = \<lparr>broken = False, written = [], delivered = []\<rparr>"

definition peerA :: client where
  "peerA = \<lparr>conn = \<lparr>RemoteAddr = 1\<rparr>, name = ''user1''\<rparr>"

definition peerB :: client where
  "peerB = \<lparr>conn = \<lparr>RemoteAddr = 2\<rparr>, name = ''user2''\<rparr>"

definition peerC :: client where
  "peerC = \<lparr>conn = \<lparr>RemoteAddr = 3\<rparr>, name = ''user3''\<rparr>"

definition room :: server where
  "room = \<lparr>members = [(1, peerA), (2, peerB), (3, peerC)], messages = [], disconnect = [],
            net = (\<lambda>a. idle\<lparr>broken := (a = 2)\<rparr>)\<rparr>"

declare readLoop.simps [simp del] readFromServer.simps [simp del] trimFront.simps [simp del]
  showNat.simps [simp del]

section \<open>The length header\<close>

lemma length_putUint32: "length (putUint32 v) = 4"
  by (simp add: putUint32_def)

lemma bytes_of_nat:
  fixes n :: nat
  assumes "n < 4294967296"
  shows "((n div 16777216 mod 256 * 256 + n div 65536 mod 256) * 256 + n div 256 mod 256) * 256
           + n mod 256 = n"
proof -
  define q1 where "q1 = n div 256"
  define q2 where "q2 = q1 div 256"
  define q3 where "q3 = q2 div 256"
  have e2: "n div 65536 = q2" unfolding q2_def q1_def by (simp add: div_mult2_eq [symmetric])
  have e3: "n div 16777216 = q3" unfolding q3_def q2_def q1_def by (simp add: div_mult2_eq [symmetric])
  have "q3 < 256" using assms by (simp add: e3 [symmetric] div_less_iff_less_mult)
  then have s3: "q3 mod 256 * 256 + q2 mod 256 = q2" by (simp add: q3_def)
  have s2: "q2 * 256 + q1 mod 256 = q1" by (simp add: q2_def)
  have s1: "q1 * 256 + n mod 256 = n" by (simp add: q1_def)
  show ?thesis unfolding e2 e3 s3 using s2 s1 q1_def by simp
qed

lemma getUint32_putUint32: "getUint32 (putUint32 v) = v"
proof -
  have b: "unat v < 4294967296" using unsigned_less [of v] by simp
  have "getUint32 (putUint32 v) =
      of_nat (((unat v div 16777216 mod 256 * 256 + unat v div 65536 mod 256) * 256
                + unat v div 256 mod 256) * 256 + unat v mod 256)"
    by (simp only: putUint32_def getUint32.simps of_char_of)
  also have "\<dots> = of_nat (unat v)" by (simp only: bytes_of_nat [OF b])
  finally show ?thesis by simp
qed

lemma unat_msgLen: "n < 4294967296 \<Longrightarrow> unat (of_nat n :: uint32) = n"
  by (simp add: unat_of_nat)

lemma msgLen_zero_iff: "(of_nat n :: uint32) = 0 \<longleftrightarrow> n = 0" if "n < 4294967296"
proof
  assume "(of_nat n :: uint32) = 0"
  then have "unat (of_nat n :: uint32) = unat (0 :: uint32)" by (simp only:)
  then show "n = 0" using that by (simp only: unat_msgLen unat_0)
qed simp

lemma msgLen_exceeds_iff:
  "n < 4294967296 \<Longrightarrow> (of_nat n :: uint32) > maxMessageSize \<longleftrightarrow> 4096 < n"
  by (simp add: word_less_nat_alt unat_msgLen maxMessageSize_def)

lemma encode_cases:
  assumes "length t < 4294967296"
  shows "encode t =
           (if length t = 0 then Skipped
            else if 4096 < length t then TooLarge
            else Frame (putUint32 (of_nat (length t)) @ t))"
  using assms by (simp add: encode_def Let_def msgLen_zero_iff msgLen_exceeds_iff)

lemma encode_valid:
  assumes "0 < length t" "length t \<le> 4096"
  shows "encode t = Frame (putUint32 (of_nat (length t)) @ t)"
  using assms by (simp add: encode_def Let_def msgLen_zero_iff msgLen_exceeds_iff)

lemma ReadFull_append: "length h = n \<Longrightarrow> ReadFull n (h @ rest) = Some (h, rest)"
  by (simp add: ReadFull_def)

lemma readFrame_valid:
  assumes "0 < length t" "length t \<le> 4096"
  shows "readFrame (putUint32 (of_nat (length t)) @ t @ rest) = Body t rest"
proof -
  have r1: "ReadFull 4 (putUint32 (of_nat (length t)) @ t @ rest) = Some (putUint32 (of_nat (length t)), t @ rest)"
    by (rule ReadFull_append) (rule length_putUint32)
  have r2: "ReadFull (unat (of_nat (length t) :: uint32)) (t @ rest) = Some (t, rest)"
    using assms by (intro ReadFull_append) (simp add: unat_msgLen)
  show ?thesis
    using assms by (simp add: readFrame_def r1 r2 getUint32_putUint32 msgLen_zero_iff msgLen_exceeds_iff)
qed

section \<open>The readers, one pass at a time\<close>

lemma readLoop_Closed: "readFrame inp = Closed e rest \<Longrightarrow> readLoop c inp = ([], e, rest)"
  by (subst readLoop.simps) simp

lemma readLoop_ZeroLength: "readFrame inp = ZeroLength rest \<Longrightarrow> readLoop c inp = readLoop c rest"
  by (subst readLoop.simps) simp

lemma readLoop_Body:
  "readFrame inp = Body msgBuf rest \<Longrightarrow>
   readLoop c inp =
     (case readLoop c rest of (evs, e, r) \<Rightarrow> (Message c (TrimSpace msgBuf) # evs, e, r))"
  by (subst readLoop.simps) simp

lemma readLoop_valid:
  assumes "0 < length t" "length t \<le> 4096"
  shows "readLoop c (putUint32 (of_nat (length t)) @ t @ rest) =
           (case readLoop c rest of (evs, e, r) \<Rightarrow> (Message c (TrimSpace t) # evs, e, r))"
  by (rule readLoop_Body [OF readFrame_valid [OF assms]])

lemma readFromServer_Closed:
  "readFrame inp = Closed e rest \<Longrightarrow> readFromServer inp = ([], e, rest)"
  by (subst readFromServer.simps) simp

lemma readFromServer_ZeroLength:
  "readFrame inp = ZeroLength rest \<Longrightarrow> readFromServer inp = readFromServer rest"
  by (subst readFromServer.simps) simp

lemma readFromServer_Body:
  "readFrame inp = Body msgBuf rest \<Longrightarrow>
   readFromServer inp =
     (if TrimSpace msgBuf = [] then readFromServer rest
      else (case readFromServer rest of
              (out, e, r) \<Rightarrow> ((''> '' @ TrimSpace msgBuf) # out, e, r)))"
  by (subst readFromServer.simps) (simp add: Let_def)

lemma readFrame_empty: "readFrame [] = Closed LengthReadError []"
  by (simp add: readFrame_def ReadFull_def)

lemma readFrame_oversize:
  assumes "length h = 4" "4096 < unat (getUint32 h)"
  shows "readFrame (h @ rest) = Closed LengthExceedsLimit rest"
proof -
  have nz: "getUint32 h \<noteq> 0" using assms(2) by auto
  have big: "getUint32 h > maxMessageSize"
    using assms(2) by (simp add: word_less_nat_alt maxMessageSize_def)
  show ?thesis
    using nz big by (simp add: readFrame_def ReadFull_append [OF assms(1)])
qed

lemma readFrame_zero:
  assumes "length h = 4" "getUint32 h = 0"
  shows "readFrame (h @ rest) = ZeroLength rest"
  using assms(2) by (simp add: readFrame_def ReadFull_append [OF assms(1)])

lemma readInput_pass:
  "readInput c inp =
     (case readFrame inp of
        Closed e r \<Rightarrow> ([Disconnect (RemoteAddr (conn c)), Close (RemoteAddr (conn c))], e, r)
      | ZeroLength r \<Rightarrow> readInput c r
      | Body msgBuf r \<Rightarrow>
          (case readInput c r of
             (evs, e, r') \<Rightarrow> (Message c (TrimSpace msgBuf) # evs, e, r')))"
proof (cases "readFrame inp")
  case (Closed e r)
  then show ?thesis by (simp add: readInput_def readLoop_Closed)
next
  case (ZeroLength r)
  then show ?thesis by (simp add: readInput_def readLoop_ZeroLength)
next
  case (Body msgBuf r)
  then show ?thesis by (simp add: readInput_def readLoop_Body split: prod.split)
qed

lemma readFromServer_pass:
  "readFromServer inp =
     (case readFrame inp of
        Closed e r \<Rightarrow> ([], e, r)
      | ZeroLength r \<Rightarrow> readFromServer r
      | Body msgBuf r \<Rightarrow>
          (if TrimSpace msgBuf = [] then readFromServer r
           else (case readFromServer r of
                   (out, e, r') \<Rightarrow> ((''> '' @ TrimSpace msgBuf) # out, e, r'))))"
proof (cases "readFrame inp")
  case (Closed e r)
  then show ?thesis by (simp add: readFromServer_Closed)
next
  case (ZeroLength r)
  then show ?thesis by (simp add: readFromServer_ZeroLength)
next
  case (Body msgBuf r)
  then show ?thesis by (simp add: readFromServer_Body)
qed

lemma readInput_empty:
  "readInput c [] = ([Disconnect (RemoteAddr (conn c)), Close (RemoteAddr (conn c))], LengthReadError, [])"
  by (simp add: readInput_def readLoop_Closed [OF readFrame_empty])

lemma readFromServer_empty: "readFromServer [] = ([], LengthReadError, [])"
  by (rule readFromServer_Closed [OF readFrame_empty])

lemma readFrame_hi:
  "readFrame [CHR 0x00, CHR 0x00, CHR 0x00, CHR 0x02, CHR ''h'', CHR ''i''] = Body ''hi'' []"
  by (simp add: readFrame_def ReadFull_def maxMessageSize_def)

lemma readFrame_blank:
  "readFrame [CHR 0x00, CHR 0x00, CHR 0x00, CHR 0x01, CHR 0x20] = Body [CHR 0x20] []"
  by (simp add: readFrame_def ReadFull_def maxMessageSize_def)

section \<open>Trimming\<close>

lemma TrimSpace_hi: "TrimSpace ''hi'' = ''hi''"
  by (simp add: TrimSpace_def TrimLeft_def TrimRight_def trimFront.simps spaceRunes_def
      startsWith_def)

lemma TrimSpace_blank: "TrimSpace [CHR 0x20] = []"
  by (simp add: TrimSpace_def TrimLeft_def TrimRight_def trimFront.simps spaceRunes_def
      startsWith_def)

lemma trimFront_no_match: "find (startsWith s) tbl = None \<Longrightarrow> trimFront tbl s = s"
  by (subst trimFront.simps) simp

lemma find_startsWith_None:
  assumes "c \<notin> hd ` set tbl"
  shows "find (startsWith (c # s)) tbl = None"
proof -
  have "\<not> startsWith (c # s) e" if "e \<in> set tbl" for e
  proof
    assume "startsWith (c # s) e"
    then have "e \<noteq> []" and "take (length e) (c # s) = e" by (simp_all add: startsWith_def)
    then have "hd e = c" by (cases e) auto
    with that assms show False by auto
  qed
  then show ?thesis by (simp add: find_None_iff)
qed

lemma TrimSpace_plain:
  assumes s: "s = c # s'" and r: "rev s = d # s''"
    and c: "c \<notin> hd ` set spaceRunes" and d: "d \<notin> hd ` set (map rev spaceRunes)"
  shows "TrimSpace s = s"
proof -
  have "trimFront spaceRunes (c # s') = c # s'"
    by (rule trimFront_no_match [OF find_startsWith_None [OF c]])
  then have left: "TrimLeft s = s" by (simp only: TrimLeft_def s)
  have "trimFront (map rev spaceRunes) (d # s'') = d # s''"
    by (rule trimFront_no_match [OF find_startsWith_None [OF d]])
  then have "trimFront (map rev spaceRunes) (rev s) = rev s" by (simp only: r)
  then have right: "TrimRight s = s" by (simp only: TrimRight_def rev_rev_ident)
  show ?thesis by (simp only: TrimSpace_def left right)
qed

lemma TrimSpace_letters:
  assumes "0 < n"
  shows "TrimSpace (replicate n (CHR ''a'')) = replicate n (CHR ''a'')"
proof -
  obtain k where n: "n = Suc k" using assms by (cases n) auto
  have s: "replicate n (CHR ''a'') = CHR ''a'' # replicate k (CHR ''a'')"
    by (simp only: n replicate_Suc)
  have r: "rev (replicate n (CHR ''a'')) = CHR ''a'' # replicate k (CHR ''a'')"
    by (simp only: rev_replicate) (rule s)
  have c: "CHR ''a'' \<notin> hd ` set spaceRunes" by (simp add: spaceRunes_def)
  have d: "CHR ''a'' \<notin> hd ` set (map rev spaceRunes)" by (simp add: spaceRunes_def)
  show ?thesis by (rule TrimSpace_plain [OF s r c d])
qed

section \<open>Sending to one peer and to all\<close>

lemma client_msg_fields [simp]:
  "members (client_msg c msg s) = members s"
  "messages (client_msg c msg s) = messages s"
  "disconnect (client_msg c msg s) = disconnect s"
  by (simp_all add: client_msg_def Let_def split: encoded.split prod.split)

lemma net_client_msg:
  "net (client_msg c msg s) a =
     (if a = RemoteAddr (conn c) then msg_on msg (net s a) else net s a)"
  by (simp add: client_msg_def msg_on_def Let_def split: encoded.split prod.split)

lemma client_msg_members_update:
  "client_msg c msg (s\<lparr>members := ms\<rparr>) = (client_msg c msg s)\<lparr>members := ms\<rparr>"
  by (simp add: client_msg_def Let_def split: encoded.split prod.split)

lemma broadcast_loop_keeps:
  "members (broadcast_loop sender msg ms s) = members s
   \<and> messages (broadcast_loop sender msg ms s) = messages s
   \<and> disconnect (broadcast_loop sender msg ms s) = disconnect s"
  by (induction ms arbitrary: s) auto

lemma broadcast_loop_fields [simp]:
  "members (broadcast_loop sender msg ms s) = members s"
  "messages (broadcast_loop sender msg ms s) = messages s"
  "disconnect (broadcast_loop sender msg ms s) = disconnect s"
  by (simp_all add: broadcast_loop_keeps)

lemma net_broadcast_loop:
  assumes "wf_members ms"
  shows "net (broadcast_loop sender msg ms s) a =
           (if a \<in> fst ` set ms \<and> a \<noteq> RemoteAddr (conn sender)
            then msg_on msg (net s a) else net s a)"
  using assms
proof (induction ms arbitrary: s)
  case Nil
  then show ?case by simp
next
  case (Cons e ms)
  obtain k m where e: "e = (k, m)" by (cases e)
  from Cons.prems have wf: "wf_members ms" and k: "k \<notin> fst ` set ms" and km: "RemoteAddr (conn m) = k"
    by (auto simp: wf_members_def e)
  show ?case
    using k km by (auto simp: e Cons.IH [OF wf] net_client_msg)
qed

lemma broadcast_loop_members_update:
  "broadcast_loop sender msg ms (s\<lparr>members := X\<rparr>) = (broadcast_loop sender msg ms s)\<lparr>members := X\<rparr>"
  by (induction ms arbitrary: s) (auto simp: client_msg_members_update)

lemma broadcast_loop_delete:
  "broadcast_loop sender msg (AList.delete (RemoteAddr (conn sender)) ms) s = broadcast_loop sender msg ms s"
  by (induction ms arbitrary: s) auto

lemma broadcast_loop_rejected:
  "encode msg = TooLarge \<Longrightarrow> broadcast_loop sender msg ms s = s"
  by (induction ms arbitrary: s) (auto simp: client_msg_def)

section \<open>The registry invariant holds in every state the server reaches\<close>

lemma wf_members_lookup:
  "wf_members ms \<Longrightarrow> map_of ms a = Some m \<Longrightarrow> RemoteAddr (conn m) = a"
  by (auto simp: wf_members_def dest: map_of_SomeD)

lemma wf_members_newServer: "wf_members (members (newServer nt))"
  by (simp add: newServer_def wf_members_def)

lemma set_update_subset: "set (AList.update k v al) \<subseteq> insert (k, v) (set al)"
  by (induction al) auto

lemma wf_members_update:
  assumes "wf_members ms" "RemoteAddr (conn c) = a"
  shows "wf_members (AList.update a c ms)"
  using assms set_update_subset [of a c ms]
  by (auto simp: wf_members_def distinct_update)

lemma wf_members_delete:
  assumes "wf_members ms"
  shows "wf_members (AList.delete a ms)"
proof -
  have "distinct (map fst (AList.delete a ms))"
    using assms by (intro distinct_delete) (simp add: wf_members_def)
  moreover have "set (AList.delete a ms) \<subseteq> set ms" by (auto simp: AList.delete_eq)
  ultimately show ?thesis using assms unfolding wf_members_def by blast
qed

lemma wf_members_main_accept:
  "wf_members (members s) \<Longrightarrow> wf_members (members (main_accept cn now s))"
  by (simp add: main_accept_def Let_def server_broadcast_def wf_members_update newClient_def)

lemma wf_members_run_disconnect:
  "wf_members (members s) \<Longrightarrow> wf_members (members (run_disconnect a s))"
  by (simp add: run_disconnect_def Let_def server_broadcast_def wf_members_delete split: option.split)

lemma wf_members_run_message:
  "wf_members (members s) \<Longrightarrow> wf_members (members (run_message m s))"
  by (simp add: run_message_def server_msg_def server_broadcast_def)

lemma wf_members_room: "wf_members (members room)"
  by (simp add: wf_members_def room_def peerA_def peerB_def peerC_def)

section \<open>Client names\<close>

lemma showNat_1: "n < 10 \<Longrightarrow> length (showNat n) = 1"
  by (subst showNat.simps) simp

lemma showNat_2: "n < 100 \<Longrightarrow> length (showNat n) \<le> 2"
  by (subst showNat.simps) (simp add: showNat_1)

lemma showNat_3: "n < 1000 \<Longrightarrow> length (showNat n) \<le> 3"
  using showNat_2 [of "n div 10"] by (subst showNat.simps) simp

lemma showNat_4: "n < 10000 \<Longrightarrow> length (showNat n) \<le> 4"
  using showNat_3 [of "n div 10"] by (subst showNat.simps) simp

lemma rem_bound: "\<bar>rem a 10000\<bar> < 10000"
  by (simp add: rem_def abs_mult abs_sgn_eq)

lemma length_showInt: "length (showInt i) \<le> 5" if "\<bar>i\<bar> < 10000"
proof (cases "i < 0")
  case True
  with that have "nat (- i) < 10000" by simp
  then have "length (showNat (nat (- i))) \<le> 4" by (rule showNat_4)
  with True show ?thesis by (simp add: showInt_def)
next
  case False
  with that have "nat i < 10000" by simp
  then have "length (showNat (nat i)) \<le> 4" by (rule showNat_4)
  with False show ?thesis by (simp add: showInt_def)
qed

lemma length_name_newClient: "length (name (newClient cn now)) \<le> 9"
  using length_showInt [OF rem_bound, of now] by (simp add: newClient_def)

lemma newClient_1234: "newClient \<lparr>RemoteAddr = 4\<rparr> 1700000000000001234 = \<lparr>conn = \<lparr>RemoteAddr = 4\<rparr>, name = ''user1234''\<rparr>"
  by (simp add: newClient_def rem_def showInt_def showNat.simps char_of_def bit_0 bit_Suc)

section \<open>Disconnects\<close>

lemma run_disconnect_absent: "map_of (members s) a = None \<Longrightarrow> run_disconnect a s = s"
  by (simp add: run_disconnect_def)

lemma run_disconnect_present:
  assumes "map_of (members s) a = Some c"
  shows "run_disconnect a s =
           (server_broadcast c (name c @ '' left the room'') s)\<lparr>members := AList.delete a (members s)\<rparr>"
  using assms by (simp add: run_disconnect_def Let_def server_broadcast_def)

lemma spec_disconnect_present:
  assumes "map_of (members s) a = Some c" "RemoteAddr (conn c) = a"
  shows "spec_disconnect a s =
           (server_broadcast c (name c @ '' left the room'') s)\<lparr>members := AList.delete a (members s)\<rparr>"
proof -
  have "AList.delete a (members s) = AList.delete (RemoteAddr (conn c)) (members s)"
    by (simp only: assms(2))
  then show ?thesis
    using assms(1)
    by (simp add: spec_disconnect_def server_broadcast_def broadcast_loop_members_update
        broadcast_loop_delete)
qed

section \<open>Examples of frames\<close>

lemma encode_hello:
  "encode ''hello'' = Frame ([CHR 0x00, CHR 0x00, CHR 0x00, CHR 0x05] @ ''hello'')"
  by (simp add: encode_def maxMessageSize_def putUint32_def char_of_def bit_0 bit_Suc)

section \<open>Framing round trip\<close>

text \<open>
  Claim C1. For every text \<open>t\<close> of at least 1 and at most 4096 bytes, the sender builds a
  frame of 4 + \<open>length t\<close> bytes, and a reader that finds this frame at the front of its
  stream (header read, header decoded, body of exactly that many bytes read, bytes taken
  as a string) gets \<open>t\<close> back and leaves the bytes after the frame unread. What
  \<^verbatim>\<open>readInput\<close> does with the decoded text afterwards (it trims it, see \<open>readLoop_valid\<close>)
  is a later step of the loop body and not part of this statement.
\<close>

theorem C1_frame_roundtrip:
  assumes "0 < length t" and "length t \<le> 4096"
  shows "\<exists>buf. encode t = Frame buf \<and> length buf = 4 + length t
           \<and> readFrame (buf @ rest) = Body t rest"
  using assms by (simp add: encode_valid readFrame_valid length_putUint32)

theorem C1_frame_roundtrip_witness:
  "0 < length ''hi'' \<and> length ''hi'' \<le> 4096
   \<and> encode ''hi'' = Frame [CHR 0x00, CHR 0x00, CHR 0x00, CHR 0x02, CHR ''h'', CHR ''i'']
   \<and> readFrame [CHR 0x00, CHR 0x00, CHR 0x00, CHR 0x02, CHR ''h'', CHR ''i''] = Body ''hi'' []"
proof -
  have e: "encode ''hi'' = Frame [CHR 0x00, CHR 0x00, CHR 0x00, CHR 0x02, CHR ''h'', CHR ''i'']"
    by (simp add: encode_def maxMessageSize_def putUint32_def char_of_def bit_0 bit_Suc)
  show ?thesis
    using C1_frame_roundtrip [of "''hi''" "[]"] by (simp add: e)
qed

section \<open>Empty text after trimming\<close>

text \<open>
  Claim C2. The claim says that \<^verbatim>\<open>readInput\<close> drops a message whose text is empty after
  trimming and sends nothing to the server for it. The server's reader has no such
  check: for a frame whose body is one blank it sends a message with the empty text on
  the server channel. The reader of client.go, given the same bytes, prints nothing: it
  has the check.
\<close>

theorem C2_blank_message_is_emitted:
  "readInput peerA [CHR 0x00, CHR 0x00, CHR 0x00, CHR 0x01, CHR 0x20]
     = ([Message peerA [], Disconnect 1, Close 1], LengthReadError, [])
   \<and> readFromServer [CHR 0x00, CHR 0x00, CHR 0x00, CHR 0x01, CHR 0x20]
     = ([], LengthReadError, [])"
  by (simp add: readInput_def readLoop_Body [OF readFrame_blank]
      readFromServer_Body [OF readFrame_blank] TrimSpace_blank
      readLoop_Closed [OF readFrame_empty] readFromServer_Closed [OF readFrame_empty] peerA_def)

section \<open>Who writes the registry\<close>

text \<open>
  Claim C3. The claim says that only the loop of \<^verbatim>\<open>run\<close> inserts into, deletes from or
  ranges over the member map. The accept loop of \<^verbatim>\<open>main\<close>, which is not that loop and runs
  beside it, does the first and the last: a pass for a new connection adds the entry of
  the new client and ranges over the map to write the join notice to the others.
\<close>

theorem C3_accept_loop_writes_registry:
  "members (main_accept \<lparr>RemoteAddr = 4\<rparr> 1700000000000001234 room)
     = [(1, peerA), (2, peerB), (3, peerC),
        (4, \<lparr>conn = \<lparr>RemoteAddr = 4\<rparr>, name = ''user1234''\<rparr>)]
   \<and> written (net (main_accept \<lparr>RemoteAddr = 4\<rparr> 1700000000000001234 room) 3)
     = [[CHR 0x00, CHR 0x00, CHR 0x00, CHR 0x18] @ ''user1234 joined the room'']"
proof -
  let ?c = "\<lparr>conn = \<lparr>RemoteAddr = 4\<rparr>, name = ''user1234''\<rparr>"
  let ?ms = "[(1, peerA), (2, peerB), (3, peerC), (4, ?c)]"
  have u: "AList.update 4 ?c (members room) = ?ms" by (simp add: room_def)
  have e: "encode ''user1234 joined the room''
             = Frame ([CHR 0x00, CHR 0x00, CHR 0x00, CHR 0x18] @ ''user1234 joined the room'')"
    by (simp add: encode_def maxMessageSize_def putUint32_def char_of_def bit_0 bit_Suc)
  have n: "written (net (broadcast_loop ?c ''user1234 joined the room'' ?ms (room\<lparr>members := ?ms\<rparr>)) 3)
            = [[CHR 0x00, CHR 0x00, CHR 0x00, CHR 0x18] @ ''user1234 joined the room'']"
    by (simp add: net_client_msg msg_on_def e Write_def room_def idle_def
        peerA_def peerB_def peerC_def)
  show ?thesis
    using n by (simp add: main_accept_def Let_def server_broadcast_def newClient_1234 u)
qed

section \<open>What the sender frames\<close>

text \<open>
  Claim C4, as the code has it. The sender does not trim: it sends nothing when the text
  has no bytes at all, and a text of blanks is framed like any other. For a payload below
  2^32 bytes: no bytes give no frame and no error, more than 4096 bytes give no frame
  (\<^verbatim>\<open>encodeAndSend\<close> returns an error, \<^verbatim>\<open>client.msg\<close> only logs), and otherwise the buffer
  handed to the connection is a header of four bytes that decodes to the payload length,
  followed by exactly the payload.
\<close>

theorem C4_encode_cases:
  assumes "length t < 4294967296"
  shows "encode t =
           (if length t = 0 then Skipped
            else if 4096 < length t then TooLarge
            else Frame (putUint32 (of_nat (length t)) @ t))
       \<and> length (putUint32 (of_nat (length t))) = 4
       \<and> unat (getUint32 (putUint32 (of_nat (length t)))) = length t
       \<and> client_msg c t s =
           (if length t = 0 \<or> 4096 < length t then s
            else s\<lparr>net := (net s)(RemoteAddr (conn c) :=
                   fst (Write (net s (RemoteAddr (conn c))) (putUint32 (of_nat (length t)) @ t)))\<rparr>)
       \<and> encodeAndSend tr t =
           (if length t = 0 then (tr, None)
            else if 4096 < length t then (tr, Some MessageTooLarge)
            else (fst (Write tr (putUint32 (of_nat (length t)) @ t)),
                  if broken tr then Some WriteFailed else None))"
proof -
  note e = encode_cases [OF assms]
  have h: "unat (getUint32 (putUint32 (of_nat (length t)))) = length t"
    using assms by (simp add: getUint32_putUint32 unat_msgLen)
  have m: "client_msg c t s =
           (if length t = 0 \<or> 4096 < length t then s
            else s\<lparr>net := (net s)(RemoteAddr (conn c) :=
                   fst (Write (net s (RemoteAddr (conn c))) (putUint32 (of_nat (length t)) @ t)))\<rparr>)"
    by (simp add: client_msg_def e Let_def split: prod.split)
  have s: "encodeAndSend tr t =
           (if length t = 0 then (tr, None)
            else if 4096 < length t then (tr, Some MessageTooLarge)
            else (fst (Write tr (putUint32 (of_nat (length t)) @ t)),
                  if broken tr then Some WriteFailed else None))"
    by (simp add: encodeAndSend_def e Write_def)
  from e h m s show ?thesis by (simp only: length_putUint32 simp_thms)
qed

theorem C4_encode_cases_witness:
  "length ''hi'' < 4294967296
   \<and> encode ''hi'' = Frame ([CHR 0x00, CHR 0x00, CHR 0x00, CHR 0x02] @ ''hi'')
   \<and> encodeAndSend idle ''hi''
       = (idle\<lparr>written := [[CHR 0x00, CHR 0x00, CHR 0x00, CHR 0x02] @ ''hi''],
               delivered := [[CHR 0x00, CHR 0x00, CHR 0x00, CHR 0x02] @ ''hi'']\<rparr>, None)"
proof -
  have p: "putUint32 2 = [CHR 0x00, CHR 0x00, CHR 0x00, CHR 0x02]"
    by (simp add: putUint32_def char_of_def bit_0 bit_Suc)
  show ?thesis
    using C4_encode_cases [of "''hi''" peerA room idle]
    by (simp add: p Write_def idle_def)
qed

text \<open>
  Claim C4, as stated, fails: the text of one blank is empty after trimming, and both
  \<^verbatim>\<open>encodeAndSend\<close> and \<^verbatim>\<open>client.msg\<close> frame it and write the frame.
\<close>

theorem C4_blank_text_is_framed:
  "TrimSpace [CHR 0x20] = []
   \<and> encode [CHR 0x20] = Frame [CHR 0x00, CHR 0x00, CHR 0x00, CHR 0x01, CHR 0x20]
   \<and> encodeAndSend idle [CHR 0x20]
       = (idle\<lparr>written := [[CHR 0x00, CHR 0x00, CHR 0x00, CHR 0x01, CHR 0x20]],
               delivered := [[CHR 0x00, CHR 0x00, CHR 0x00, CHR 0x01, CHR 0x20]]\<rparr>, None)
   \<and> written (net (client_msg peerC [CHR 0x20] room) 3)
       = [[CHR 0x00, CHR 0x00, CHR 0x00, CHR 0x01, CHR 0x20]]"
proof -
  have e: "encode [CHR 0x20] = Frame [CHR 0x00, CHR 0x00, CHR 0x00, CHR 0x01, CHR 0x20]"
    by (simp add: encode_def maxMessageSize_def putUint32_def char_of_def bit_0 bit_Suc)
  show ?thesis
    by (simp add: TrimSpace_blank e encodeAndSend_def client_msg_def Write_def idle_def
        room_def peerC_def)
qed

section \<open>Broadcast\<close>

text \<open>
  Claim C5. In a registry that satisfies the invariant, one broadcast calls
  \<^verbatim>\<open>m.msg(msg)\<close> exactly once for every registered peer whose address is not the
  sender's, and touches no other transport: not the sender's, and none outside the
  registry. So when the message can be framed, the frame is handed once to the connection
  of every registered peer but the sender, and nothing is written to the sender.
\<close>

theorem C5_broadcast_excludes_sender:
  assumes "wf_members (members s)"
  shows "net (server_broadcast sender msg s) a =
           (case map_of (members s) a of
              None \<Rightarrow> net s a
            | Some m \<Rightarrow>
                if a = RemoteAddr (conn sender) then net s a else net (client_msg m msg s) a)
       \<and> (case encode msg of
            Frame buf \<Rightarrow>
              written (net (server_broadcast sender msg s) a) =
                written (net s a) @
                  (if a \<in> fst ` set (members s) \<and> a \<noteq> RemoteAddr (conn sender) then [buf] else [])
          | _ \<Rightarrow> net (server_broadcast sender msg s) a = net s a)"
proof -
  have n: "net (server_broadcast sender msg s) a =
             (if a \<in> fst ` set (members s) \<and> a \<noteq> RemoteAddr (conn sender)
              then msg_on msg (net s a) else net s a)"
    unfolding server_broadcast_def by (rule net_broadcast_loop [OF assms])
  have none: "map_of (members s) a = None \<longleftrightarrow> a \<notin> fst ` set (members s)"
    by (simp add: map_of_eq_None_iff)
  have first: "net (server_broadcast sender msg s) a =
           (case map_of (members s) a of
              None \<Rightarrow> net s a
            | Some m \<Rightarrow>
                if a = RemoteAddr (conn sender) then net s a else net (client_msg m msg s) a)"
  proof (cases "map_of (members s) a")
    case None
    then show ?thesis using n none by simp
  next
    case (Some m)
    then have "a \<in> fst ` set (members s)" using none by auto
    moreover have "RemoteAddr (conn m) = a" by (rule wf_members_lookup [OF assms Some])
    ultimately show ?thesis using n Some by (simp add: net_client_msg)
  qed
  have second: "(case encode msg of
            Frame buf \<Rightarrow>
              written (net (server_broadcast sender msg s) a) =
                written (net s a) @
                  (if a \<in> fst ` set (members s) \<and> a \<noteq> RemoteAddr (conn sender) then [buf] else [])
          | _ \<Rightarrow> net (server_broadcast sender msg s) a = net s a)"
    by (cases "encode msg") (simp_all add: n msg_on_def Write_def)
  from first second show ?thesis by (rule conjI)
qed

theorem C5_broadcast_excludes_sender_witness:
  "wf_members (members room)
   \<and> written (net (server_broadcast peerA ''hello'' room) 1) = []
   \<and> written (net (server_broadcast peerA ''hello'' room) 2)
       = [[CHR 0x00, CHR 0x00, CHR 0x00, CHR 0x05] @ ''hello'']
   \<and> written (net (server_broadcast peerA ''hello'' room) 3)
       = [[CHR 0x00, CHR 0x00, CHR 0x00, CHR 0x05] @ ''hello'']"
proof -
  note w = wf_members_room
  have m: "fst ` set (members room) = {1, 2, 3}" and a: "RemoteAddr (conn peerA) = 1"
    and n: "\<And>a. written (net room a) = []"
    by (simp_all add: room_def peerA_def idle_def)
  show ?thesis
    using C5_broadcast_excludes_sender [OF w, of peerA "''hello''" 1, THEN conjunct2]
      C5_broadcast_excludes_sender [OF w, of peerA "''hello''" 2, THEN conjunct2]
      C5_broadcast_excludes_sender [OF w, of peerA "''hello''" 3, THEN conjunct2]
    by (simp add: w encode_hello m a n)
qed

text \<open>
  Claim C9. A broadcast leaves the registry and both channels as they are, whatever
  happens to the writes: it removes no peer and sends no disconnect notice. When the
  message can be framed, the frame is handed to the connection of every registered peer
  but the sender, whether or not the write to any of them (this one included) fails; a
  failed write delivers nothing, a good one delivers the frame. When the message cannot
  be framed, no transport changes.
\<close>

theorem C9_write_failures_are_skipped:
  assumes "wf_members (members s)"
  shows "members (server_broadcast sender msg s) = members s
       \<and> messages (server_broadcast sender msg s) = messages s
       \<and> disconnect (server_broadcast sender msg s) = disconnect s
       \<and> (case encode msg of
            Frame buf \<Rightarrow>
              (\<forall>a \<in> fst ` set (members s) - {RemoteAddr (conn sender)}.
                 written (net (server_broadcast sender msg s) a) = written (net s a) @ [buf]
                 \<and> delivered (net (server_broadcast sender msg s) a) =
                     (if broken (net s a) then delivered (net s a) else delivered (net s a) @ [buf]))
          | _ \<Rightarrow> net (server_broadcast sender msg s) = net s)"
proof -
  have n: "\<And>a. net (server_broadcast sender msg s) a =
             (if a \<in> fst ` set (members s) \<and> a \<noteq> RemoteAddr (conn sender)
              then msg_on msg (net s a) else net s a)"
    unfolding server_broadcast_def by (rule net_broadcast_loop [OF assms])
  have keep: "members (server_broadcast sender msg s) = members s
       \<and> messages (server_broadcast sender msg s) = messages s
       \<and> disconnect (server_broadcast sender msg s) = disconnect s"
    by (simp add: server_broadcast_def)
  have nets: "(case encode msg of
            Frame buf \<Rightarrow>
              (\<forall>a \<in> fst ` set (members s) - {RemoteAddr (conn sender)}.
                 written (net (server_broadcast sender msg s) a) = written (net s a) @ [buf]
                 \<and> delivered (net (server_broadcast sender msg s) a) =
                     (if broken (net s a) then delivered (net s a) else delivered (net s a) @ [buf]))
          | _ \<Rightarrow> net (server_broadcast sender msg s) = net s)"
  proof (cases "encode msg")
    case (Frame buf)
    then show ?thesis by (simp add: n msg_on_def Write_def)
  next
    case Skipped
    then have "\<And>a. net (server_broadcast sender msg s) a = net s a" by (simp add: n msg_on_def)
    then show ?thesis using Skipped by (simp add: fun_eq_iff)
  next
    case TooLarge
    then have "\<And>a. net (server_broadcast sender msg s) a = net s a" by (simp add: n msg_on_def)
    then show ?thesis using TooLarge by (simp add: fun_eq_iff)
  qed
  from keep nets show ?thesis by simp
qed

theorem C9_write_failures_are_skipped_witness:
  "wf_members (members room) \<and> broken (net room 2)
   \<and> members (server_broadcast peerA ''hello'' room) = members room
   \<and> disconnect (server_broadcast peerA ''hello'' room) = []
   \<and> delivered (net (server_broadcast peerA ''hello'' room) 2) = []
   \<and> delivered (net (server_broadcast peerA ''hello'' room) 3)
       = [[CHR 0x00, CHR 0x00, CHR 0x00, CHR 0x05] @ ''hello'']"
proof -
  note w = wf_members_room
  have m: "fst ` set (members room) = {1, 2, 3}" and a: "RemoteAddr (conn peerA) = 1"
    and n: "\<And>a. delivered (net room a) = []" "\<And>a. broken (net room a) = (a = 2)"
    and d: "disconnect room = []"
    by (simp_all add: room_def peerA_def idle_def)
  show ?thesis
    using C9_write_failures_are_skipped [OF w, of peerA "''hello''"]
    by (simp add: w encode_hello m a n d)
qed

section \<open>Disconnect events\<close>

text \<open>
  Claim C8. In a registry that satisfies the invariant, handling a disconnect for an
  address ends in the state that the specification's order of steps (remove the entry,
  then broadcast the departure notice with the removed peer excluded) ends in. The source
  broadcasts first and deletes after; the broadcast skips the leaving peer by its address,
  so the result is the same. If the address is registered, its entry is gone afterwards
  and the transports are those after the broadcast of "<name> left the room"; if it is
  not, nothing changes. Handling the same disconnect a second time changes nothing.
\<close>

theorem C8_disconnect_removes_and_notifies_once:
  assumes "wf_members (members s)"
  shows "run_disconnect a s = spec_disconnect a s
       \<and> map_of (members (run_disconnect a s)) a = None
       \<and> (case map_of (members s) a of
            None \<Rightarrow> run_disconnect a s = s
          | Some c \<Rightarrow>
              members (run_disconnect a s) = AList.delete a (members s)
              \<and> net (run_disconnect a s) = net (server_broadcast c (name c @ '' left the room'') s))
       \<and> run_disconnect a (run_disconnect a s) = run_disconnect a s"
proof (cases "map_of (members s) a")
  case None
  then show ?thesis
    by (simp add: run_disconnect_absent spec_disconnect_def)
next
  case (Some c)
  have ca: "RemoteAddr (conn c) = a" by (rule wf_members_lookup [OF assms Some])
  have gone: "map_of (members (run_disconnect a s)) a = None"
    by (simp add: run_disconnect_present [OF Some] delete_conv')
  have idem: "run_disconnect a (run_disconnect a s) = run_disconnect a s"
    by (rule run_disconnect_absent [OF gone])
  have same: "run_disconnect a s = spec_disconnect a s"
    by (simp only: run_disconnect_present [OF Some] spec_disconnect_present [OF Some ca])
  have parts: "members (run_disconnect a s) = AList.delete a (members s)
      \<and> net (run_disconnect a s) = net (server_broadcast c (name c @ '' left the room'') s)"
    by (simp add: run_disconnect_present [OF Some])
  from same gone parts idem show ?thesis by (simp only: Some option.case simp_thms)
qed

theorem C8_disconnect_removes_and_notifies_once_witness:
  "wf_members (members room)
   \<and> members (run_disconnect 2 room) = [(1, peerA), (3, peerC)]
   \<and> run_disconnect 2 room = spec_disconnect 2 room
   \<and> run_disconnect 2 (run_disconnect 2 room) = run_disconnect 2 room"
proof -
  note w = wf_members_room
  have m: "map_of (members room) 2 = Some peerB"
    and d: "AList.delete 2 (members room) = [(1, peerA), (3, peerC)]"
    by (simp_all add: room_def)
  note t = C8_disconnect_removes_and_notifies_once [OF w, of 2]
  have same: "run_disconnect 2 room = spec_disconnect 2 room"
    by (rule t [THEN conjunct1])
  have mem: "members (run_disconnect 2 room) = [(1, peerA), (3, peerC)]"
    using t [THEN conjunct2, THEN conjunct2, THEN conjunct1] by (simp add: m d)
  have idem: "run_disconnect 2 (run_disconnect 2 room) = run_disconnect 2 room"
    by (rule t [THEN conjunct2, THEN conjunct2, THEN conjunct2])
  from w same mem idem show ?thesis by blast
qed

section \<open>Headers above the limit and zero headers\<close>

text \<open>
  Claim C6. When the four header bytes decode to a value above 4096, the pass ends the
  loop at once, with every byte after the header still unread: no body is read and no
  further header. \<^verbatim>\<open>readInput\<close> then does exactly two things and returns: it sends the
  disconnect notice and closes the connection; it sends no message. \<^verbatim>\<open>readFromServer\<close>,
  the reader of the client program, leaves its loop in the same way and prints nothing.
\<close>

theorem C6_oversize_header_closes:
  assumes "length h = 4" and "4096 < unat (getUint32 h)"
  shows "readFrame (h @ rest) = Closed LengthExceedsLimit rest
       \<and> readInput c (h @ rest) =
           ([Disconnect (RemoteAddr (conn c)), Close (RemoteAddr (conn c))],
            LengthExceedsLimit, rest)
       \<and> readFromServer (h @ rest) = ([], LengthExceedsLimit, rest)"
  using readFrame_oversize [OF assms, of rest]
  by (simp add: readInput_def readLoop_Closed readFromServer_Closed)

theorem C6_oversize_header_closes_witness:
  "length [CHR 0x00, CHR 0x00, CHR 0x13, CHR 0x88] = 4
   \<and> 4096 < unat (getUint32 [CHR 0x00, CHR 0x00, CHR 0x13, CHR 0x88])
   \<and> readInput \<lparr>conn = \<lparr>RemoteAddr = 7\<rparr>, name = ''user7''\<rparr>
        ([CHR 0x00, CHR 0x00, CHR 0x13, CHR 0x88] @ ''abc'')
       = ([Disconnect 7, Close 7], LengthExceedsLimit, ''abc'')"
  using C6_oversize_header_closes [of "[CHR 0x00, CHR 0x00, CHR 0x13, CHR 0x88]" "''abc''"
      "\<lparr>conn = \<lparr>RemoteAddr = 7\<rparr>, name = ''user7''\<rparr>"]
  by simp

text \<open>
  Claim C7. When the four header bytes decode to 0, the pass consumes the header and
  nothing else: no body is read, every byte after the header is still unread. The loop
  then makes its next pass on these bytes, so their first four are read as a header:
  what either reader does from here on is what one pass on the bytes after the zero
  header decides (the loop ends if that pass fails, skips again on another zero header,
  and handles the body if there is a frame).
\<close>

theorem C7_zero_header_skipped:
  assumes "length h = 4" and "getUint32 h = 0"
  shows "readFrame (h @ rest) = ZeroLength rest
       \<and> readInput c (h @ rest) =
           (case readFrame rest of
              Closed e r \<Rightarrow>
                ([Disconnect (RemoteAddr (conn c)), Close (RemoteAddr (conn c))], e, r)
            | ZeroLength r \<Rightarrow> readInput c r
            | Body msgBuf r \<Rightarrow>
                (case readInput c r of
                   (evs, e, r') \<Rightarrow> (Message c (TrimSpace msgBuf) # evs, e, r')))
       \<and> readFromServer (h @ rest) =
           (case readFrame rest of
              Closed e r \<Rightarrow> ([], e, r)
            | ZeroLength r \<Rightarrow> readFromServer r
            | Body msgBuf r \<Rightarrow>
                (if TrimSpace msgBuf = [] then readFromServer r
                 else (case readFromServer r of
                         (out, e, r') \<Rightarrow> ((''> '' @ TrimSpace msgBuf) # out, e, r'))))"
proof -
  have z: "readFrame (h @ rest) = ZeroLength rest" by (rule readFrame_zero [OF assms])
  have "readInput c (h @ rest) = readInput c rest"
    by (subst readInput_pass) (simp add: z)
  then have i: "readInput c (h @ rest) =
           (case readFrame rest of
              Closed e r \<Rightarrow>
                ([Disconnect (RemoteAddr (conn c)), Close (RemoteAddr (conn c))], e, r)
            | ZeroLength r \<Rightarrow> readInput c r
            | Body msgBuf r \<Rightarrow>
                (case readInput c r of
                   (evs, e, r') \<Rightarrow> (Message c (TrimSpace msgBuf) # evs, e, r')))"
    by (simp only: readInput_pass [of c rest, symmetric])
  have "readFromServer (h @ rest) = readFromServer rest"
    by (rule readFromServer_ZeroLength [OF z])
  then have f: "readFromServer (h @ rest) =
           (case readFrame rest of
              Closed e r \<Rightarrow> ([], e, r)
            | ZeroLength r \<Rightarrow> readFromServer r
            | Body msgBuf r \<Rightarrow>
                (if TrimSpace msgBuf = [] then readFromServer r
                 else (case readFromServer r of
                         (out, e, r') \<Rightarrow> ((''> '' @ TrimSpace msgBuf) # out, e, r'))))"
    by (simp only: readFromServer_pass [of rest, symmetric])
  from z i f show ?thesis by (intro conjI)
qed

theorem C7_zero_header_skipped_witness:
  "length [CHR 0x00, CHR 0x00, CHR 0x00, CHR 0x00] = 4
   \<and> getUint32 [CHR 0x00, CHR 0x00, CHR 0x00, CHR 0x00] = 0
   \<and> readFrame ([CHR 0x00, CHR 0x00, CHR 0x00, CHR 0x00]
                 @ [CHR 0x00, CHR 0x00, CHR 0x00, CHR 0x02, CHR ''h'', CHR ''i''])
       = ZeroLength [CHR 0x00, CHR 0x00, CHR 0x00, CHR 0x02, CHR ''h'', CHR ''i'']
   \<and> readInput peerA ([CHR 0x00, CHR 0x00, CHR 0x00, CHR 0x00]
                       @ [CHR 0x00, CHR 0x00, CHR 0x00, CHR 0x02, CHR ''h'', CHR ''i''])
       = ([Message peerA ''hi'', Disconnect 1, Close 1], LengthReadError, [])
   \<and> readFromServer ([CHR 0x00, CHR 0x00, CHR 0x00, CHR 0x00]
                      @ [CHR 0x00, CHR 0x00, CHR 0x00, CHR 0x02, CHR ''h'', CHR ''i''])
       = ([''> hi''], LengthReadError, [])"
proof -
  have l: "length [CHR 0x00, CHR 0x00, CHR 0x00, CHR 0x00] = 4"
    and g: "getUint32 [CHR 0x00, CHR 0x00, CHR 0x00, CHR 0x00] = 0"
    by simp_all
  note t = C7_zero_header_skipped [OF l g,
      of "[CHR 0x00, CHR 0x00, CHR 0x00, CHR 0x02, CHR ''h'', CHR ''i'']" peerA]
  have a: "RemoteAddr (conn peerA) = 1" by (simp add: peerA_def)
  have i: "readInput peerA ([CHR 0x00, CHR 0x00, CHR 0x00, CHR 0x00]
                       @ [CHR 0x00, CHR 0x00, CHR 0x00, CHR 0x02, CHR ''h'', CHR ''i''])
       = ([Message peerA ''hi'', Disconnect 1, Close 1], LengthReadError, [])"
    by (simp only: t [THEN conjunct2, THEN conjunct1] readFrame_hi frame_result.case
        readInput_empty TrimSpace_hi a prod.case)
  have f: "readFromServer ([CHR 0x00, CHR 0x00, CHR 0x00, CHR 0x00]
                      @ [CHR 0x00, CHR 0x00, CHR 0x00, CHR 0x02, CHR ''h'', CHR ''i''])
       = ([''> hi''], LengthReadError, [])"
    by (simp only: t [THEN conjunct2, THEN conjunct2] readFrame_hi frame_result.case
        readFromServer_empty TrimSpace_hi prod.case) simp
  from l g t [THEN conjunct1] i f show ?thesis by (intro conjI)
qed

section \<open>A chat message that no peer receives\<close>

text \<open>
  Claim C10. There is a text of at most 4096 bytes, unchanged by trimming, whose frame
  the reader accepts and passes on as a message, and for which the line
  "<name>: <text>" built by \<^verbatim>\<open>server.msg\<close> is longer than 4096 bytes for every client
  that \<^verbatim>\<open>newClient\<close> can make: the sender rejects that line for every recipient, and
  handling the message leaves every transport as it was.
\<close>

theorem C10_long_chat_message_reaches_nobody:
  "\<exists>t. 0 < length t \<and> length t \<le> 4096 \<and> TrimSpace t = t
      \<and> (\<exists>buf. encode t = Frame buf
            \<and> (\<forall>c rest. \<exists>evs e r. readLoop c (buf @ rest) = (Message c t # evs, e, r)))
      \<and> (\<forall>cn now s.
            4096 < length (name (newClient cn now) @ '': '' @ t)
            \<and> encode (name (newClient cn now) @ '': '' @ t) = TooLarge
            \<and> run_message (newClient cn now, t) s = s)"
proof -
  define t where "t = replicate 4096 (CHR ''a'')"
  have len: "length t = 4096" by (simp add: t_def)
  have pos: "0 < length t" and le: "length t \<le> 4096" by (simp_all add: len)
  have trim: "TrimSpace t = t" unfolding t_def by (rule TrimSpace_letters) simp
  have enc: "encode t = Frame (putUint32 (of_nat (length t)) @ t)"
    by (rule encode_valid [OF pos le])
  have rd: "\<exists>evs e r. readLoop c ((putUint32 (of_nat (length t)) @ t) @ rest) = (Message c t # evs, e, r)"
    for c rest
    using readLoop_valid [OF pos le, of c rest] by (simp add: trim split: prod.split)
  have out: "4096 < length (name (newClient cn now) @ '': '' @ t)
            \<and> encode (name (newClient cn now) @ '': '' @ t) = TooLarge
            \<and> run_message (newClient cn now, t) s = s" for cn now s
  proof -
    let ?m = "name (newClient cn now) @ '': '' @ t"
    have l: "length ?m = length (name (newClient cn now)) + 4098" by (simp add: len)
    then have big: "4096 < length ?m" by simp
    have "length ?m < 4294967296" using l length_name_newClient [of cn now] by simp
    then have e: "encode ?m = TooLarge" using big by (simp only: encode_cases) simp
    have "broadcast_loop (newClient cn now) ?m (members s) s = s"
      by (rule broadcast_loop_rejected [OF e])
    then have "run_message (newClient cn now, t) s = s"
      by (simp only: run_message_def server_msg_def server_broadcast_def Let_def fst_conv snd_conv)
    with big e show ?thesis by (simp only: simp_thms)
  qed
  from pos le trim enc rd out show ?thesis by blast
qed

end
